theory Spec2Isabelle
  imports Main
begin

section \<open>Expression model\<close>

text \<open>
  Modelled from the spec: the classes Symbol, Application and BindingExpression (and their
  base classes MathConcept and LogicConcept) are not part of the sources at hand; the data
  model of the specification is used. A Symbol carries its name and the two attributes
  that structural equality consults: the metavariable flag and the de Bruijn marker
  \<open>(DB, i, j)\<close>. An Application holds its ordered children. A Binder holds its children
  in the order head, bound variables, body.
\<close>

datatype expr =
    Symbol string bool "(nat \<times> nat) option"
  | Application "expr list"
  | Binder "expr list"

text \<open>A node of a tree is addressed by the child indices leading to it from the root.\<close>

type_synonym path = "nat list"

text \<open>Modelled from the spec: MathConcept.children and numChildren are missing; the
  ordered children of a node. Where the source reads \<open>child(i)\<close> the index is within
  range, and the model reads the list of children at \<open>i\<close>.\<close>

fun children :: "expr \<Rightarrow> expr list" where
  "children (Symbol n m d) = []"
| "children (Application cs) = cs"
| "children (Binder cs) = cs"

definition numChildren :: "expr \<Rightarrow> nat" where
  "numChildren t = length (children t)"

text \<open>Modelled from the spec: MathConcept.equals is missing; structural equality, which
  on this data model is equality of values.\<close>

definition equals :: "expr \<Rightarrow> expr \<Rightarrow> bool" where
  "equals a b = (a = b)"

text \<open>Modelled from the spec: MathConcept.copy is missing; a deep copy. Expressions are
  values here, so the copy of a tree is the tree: what a copy buys the source is that
  later in-place changes to it do not reach the original, which state passing gives for
  free.\<close>

definition copy :: "expr \<Rightarrow> expr" where
  "copy t = t"

text \<open>Modelled from the spec: \<open>isA(metavariable)\<close> is missing; a metavariable is a Symbol
  carrying the metavariable flag.\<close>

fun isA_metavariable :: "expr \<Rightarrow> bool" where
  "isA_metavariable (Symbol n m d) = m"
| "isA_metavariable (Application cs) = False"
| "isA_metavariable (Binder cs) = False"

text \<open>The test \<open>instanceof LurchSymbol\<close>.\<close>

fun instanceofLurchSymbol :: "expr \<Rightarrow> bool" where
  "instanceofLurchSymbol (Symbol n m d) = True"
| "instanceofLurchSymbol (Application cs) = False"
| "instanceofLurchSymbol (Binder cs) = False"

text \<open>Modelled from the spec: Symbol.text is missing; the name of a symbol (compound
  expressions have none).\<close>

fun text_of :: "expr \<Rightarrow> string" where
  "text_of (Symbol n m d) = n"
| "text_of (Application cs) = []"
| "text_of (Binder cs) = []"

text \<open>Modelled from the spec: MathConcept.descendantsSatisfying is missing; the nodes of
  the tree that satisfy the predicate, the node itself included, in document order. Each
  node found is given by its path from the root.\<close>

fun descendantsSatisfying :: "(expr \<Rightarrow> bool) \<Rightarrow> expr \<Rightarrow> path list"
  and descendantsOfChildren :: "(expr \<Rightarrow> bool) \<Rightarrow> nat \<Rightarrow> expr list \<Rightarrow> path list" where
  "descendantsSatisfying P (Symbol n m d) = (if P (Symbol n m d) then [[]] else [])"
| "descendantsSatisfying P (Application cs) =
     (if P (Application cs) then [[]] else []) @ descendantsOfChildren P 0 cs"
| "descendantsSatisfying P (Binder cs) =
     (if P (Binder cs) then [[]] else []) @ descendantsOfChildren P 0 cs"
| "descendantsOfChildren P i [] = []"
| "descendantsOfChildren P i (c # cs) =
     map ((#) i) (descendantsSatisfying P c) @ descendantsOfChildren P (Suc i) cs"

definition hasDescendantSatisfying :: "(expr \<Rightarrow> bool) \<Rightarrow> expr \<Rightarrow> bool" where
  "hasDescendantSatisfying P t = (descendantsSatisfying P t \<noteq> [])"

text \<open>The tree \<open>t\<close> with the node at a path exchanged for \<open>new\<close>; a path that leads
  nowhere changes nothing.\<close>

fun replaceAt :: "expr \<Rightarrow> path \<Rightarrow> expr \<Rightarrow> expr" where
  "replaceAt t [] new = new"
| "replaceAt (Symbol n m d) (i # p) new = Symbol n m d"
| "replaceAt (Application cs) (i # p) new =
     (if i < length cs then Application (cs[i := replaceAt (cs ! i) p new])
      else Application cs)"
| "replaceAt (Binder cs) (i # p) new =
     (if i < length cs then Binder (cs[i := replaceAt (cs ! i) p new])
      else Binder cs)"

text \<open>The node that a path leads to, if it leads to one.\<close>

fun nodeAt :: "expr \<Rightarrow> path \<Rightarrow> expr option" where
  "nodeAt t [] = Some t"
| "nodeAt t (i # p) =
     (if i < length (children t) then nodeAt (children t ! i) p else None)"

text \<open>Modelled from the spec: MathConcept.replaceWith is missing; it exchanges a node for
  another one in the node's parent, at the same index. A node without a parent, here the
  root of the tree (the empty path), cannot be exchanged and the call does nothing: the
  documentation of applyTo and appliedTo says so.\<close>

definition replaceWith :: "expr \<Rightarrow> path \<Rightarrow> expr \<Rightarrow> expr" where
  "replaceWith root p new = (if p = [] then root else replaceAt root p new)"

text \<open>Modelled from the spec: containsAMetavariable of the metavariables module is
  missing; whether some node of the tree is a metavariable.\<close>

definition containsAMetavariable :: "expr \<Rightarrow> bool" where
  "containsAMetavariable t = hasDescendantSatisfying isA_metavariable t"

text \<open>Modelled from the spec: metavariableNamesIn of the metavariables module is missing;
  the set of the names of the metavariables in the tree.\<close>

fun metavariableNamesIn :: "expr \<Rightarrow> string set" where
  "metavariableNamesIn (Symbol n m d) = (if m then {n} else {})"
| "metavariableNamesIn (Application cs) = (\<Union>c \<in> set cs. metavariableNamesIn c)"
| "metavariableNamesIn (Binder cs) = (\<Union>c \<in> set cs. metavariableNamesIn c)"

section \<open>Substitution\<close>

text \<open>The errors thrown by the constructors, one for each message of the source.\<close>

datatype error =
    InvalidSubstitutionParameters
  | ExpressionContainsMetavariable
  | PatternContainsBoundMetavariable

text \<open>A Substitution object: the metavariable, the expression, and the cache of
  metavariableNames, which is absent (\<open>None\<close>) until it is first computed.\<close>

record Substitution =
  s_metavariable :: expr
  s_expression :: expr
  s_metavariableNames :: "string set option"

text \<open>The constructor called with two arguments, a metavariable and an expression; any
  other first argument makes it throw.\<close>

definition Substitution_new :: "expr \<Rightarrow> expr \<Rightarrow> error + Substitution" where
  "Substitution_new m e =
     (if instanceofLurchSymbol m \<and> isA_metavariable m
      then Inr \<lparr> s_metavariable = m, s_expression = e, s_metavariableNames = None \<rparr>
      else Inl InvalidSubstitutionParameters)"

text \<open>applyTo on a target that is a LogicConcept without a parent (the root of its tree),
  as the copy is that appliedTo hands to it: the nodes equal to the metavariable are
  collected first and then exchanged, one after the other, for copies of the expression.
  The result is the target after the call. The branches of the source for targets that
  are not LogicConcepts hand the call on to substitute and are not part of this
  function.\<close>

definition applyTo :: "Substitution \<Rightarrow> expr \<Rightarrow> expr" where
  "applyTo S target =
     (let toReplace = descendantsSatisfying (\<lambda>d. equals d (s_metavariable S)) target
      in foldl (\<lambda>t d. replaceWith t d (copy (s_expression S))) target toReplace)"

text \<open>appliedTo on a target that is a LogicConcept: the corner case first, otherwise
  applyTo on a copy. The target itself is left as it was. The branches of the source for
  targets that are not LogicConcepts hand the call on to afterSubstituting and are not
  part of this function.\<close>

definition appliedTo :: "Substitution \<Rightarrow> expr \<Rightarrow> expr" where
  "appliedTo S target =
     (if equals target (s_metavariable S) \<and> isA_metavariable target
      then copy (s_expression S)
      else (let cp = copy target in applyTo S cp))"

text \<open>The reading of the specification: every subexpression equal to the metavariable
  is exchanged for the expression, all at once, so nothing inside an inserted expression
  is exchanged again.\<close>

fun simultaneousReplacement :: "expr \<Rightarrow> expr \<Rightarrow> expr \<Rightarrow> expr" where
  "simultaneousReplacement M e (Symbol n m d) =
     (if Symbol n m d = M then e else Symbol n m d)"
| "simultaneousReplacement M e (Application cs) =
     (if Application cs = M then e
      else Application (map (simultaneousReplacement M e) cs))"
| "simultaneousReplacement M e (Binder cs) =
     (if Binder cs = M then e
      else Binder (map (simultaneousReplacement M e) cs))"

text \<open>metavariableNames: the cached set if there is one; otherwise the set of names is
  computed from the expression and stored. The pair is the object after the call and the
  value returned.\<close>

definition metavariableNames :: "Substitution \<Rightarrow> Substitution \<times> string set" where
  "metavariableNames S =
     (case s_metavariableNames S of
        Some names \<Rightarrow> (S, names)
      | None \<Rightarrow>
          (let names = metavariableNamesIn (s_expression S)
           in (S\<lparr> s_metavariableNames := Some names \<rparr>, names)))"

text \<open>The Substitution objects of a program, by address. A call of substitute names its
  receiver and its arguments by address, so a Substitution that is handed to its own
  substitute is one object with one cached set.\<close>

type_synonym substitutions = "nat \<Rightarrow> Substitution"

text \<open>metavariableNames called on the object at an address: the objects after the call and
  the value returned.\<close>

definition metavariableNamesAt :: "nat \<Rightarrow> substitutions \<Rightarrow> substitutions \<times> string set" where
  "metavariableNamesAt a h =
     (let (S, names) = metavariableNames (h a) in (h(a := S), names))"

text \<open>One round of the forEach in substitute, for the receiver \<open>this\<close> and one
  substitution \<open>sub\<close> of the list, statement by statement: the test of the name, the
  new expression, the name deleted from the cached set of the receiver, and the names of
  \<open>sub\<close> added to it. Every statement reads the objects as the statements before it
  left them.\<close>

definition substituteOne :: "nat \<Rightarrow> nat \<Rightarrow> substitutions \<Rightarrow> substitutions" where
  "substituteOne this sub h =
     (let (h1, names) = metavariableNamesAt this h
      in if text_of (s_metavariable (h1 sub)) \<notin> names then h1
         else
           (let h2 = h1(this := (h1 this)
                       \<lparr> s_expression := appliedTo (h1 sub) (s_expression (h1 this)) \<rparr>);
                h3 = h2(this := (h2 this)
                       \<lparr> s_metavariableNames :=
                           map_option (\<lambda>cached. cached - {text_of (s_metavariable (h2 sub))})
                             (s_metavariableNames (h2 this)) \<rparr>);
                (h4, subNames) = metavariableNamesAt sub h3
            in h4(this := (h4 this)
                    \<lparr> s_metavariableNames :=
                        map_option (\<lambda>cached. cached \<union> subNames)
                          (s_metavariableNames (h4 this)) \<rparr>)))"

definition substitute :: "nat \<Rightarrow> nat list \<Rightarrow> substitutions \<Rightarrow> substitutions" where
  "substitute this subs h = foldl (\<lambda>h sub. substituteOne this sub h) h subs"

section \<open>Constraint\<close>

text \<open>The functions imported from the de Bruijn module are missing from the sources at
  hand. They are parameters of the model: every statement below holds for whatever they
  compute.\<close>

record de_bruijn =
  deBruijnEquals :: "expr \<Rightarrow> expr \<Rightarrow> bool"
  numberOfOccurrences :: "expr \<Rightarrow> expr \<Rightarrow> nat"

definition EFAComplexityEstimate :: nat where
  "EFAComplexityEstimate = 2"

text \<open>A Constraint object: pattern and expression, the cached complexity and the three
  arrays stored with it; each of the latter is absent (\<open>None\<close>) until complexity sets
  it.\<close>

record Constraint =
  c_pattern :: expr
  c_expression :: expr
  c_complexity :: "nat option"
  c_argumentCopyCount :: "nat list option"
  c_argumentContainsMetavariable :: "bool list option"
  c_argumentComplexity :: "nat list option"

text \<open>Modelled from the spec: isFree is missing, and with it the test of the constructor
  for a bound metavariable. A Binder binds the names of its bound variables, the children
  between its head and its body, in all that stands below it; a metavariable is bound when
  it stands below a Binder that binds its name.\<close>

definition boundVariableNames :: "expr list \<Rightarrow> string list" where
  "boundVariableNames cs = map text_of (filter instanceofLurchSymbol (butlast (tl cs)))"

fun boundMetavariableBelow :: "string list \<Rightarrow> expr \<Rightarrow> bool" where
  "boundMetavariableBelow bs (Symbol n m d) = (m \<and> n \<in> set bs)"
| "boundMetavariableBelow bs (Application cs) = list_ex (boundMetavariableBelow bs) cs"
| "boundMetavariableBelow bs (Binder cs) =
     list_ex (boundMetavariableBelow (boundVariableNames cs @ bs)) cs"

definition hasBoundMetavariable :: "expr \<Rightarrow> bool" where
  "hasBoundMetavariable pattern = boundMetavariableBelow [] pattern"

definition Constraint_new :: "expr \<Rightarrow> expr \<Rightarrow> error + Constraint" where
  "Constraint_new pattern expression =
     (if containsAMetavariable expression then Inl ExpressionContainsMetavariable
      else if hasBoundMetavariable pattern then Inl PatternContainsBoundMetavariable
      else Inr \<lparr> c_pattern = pattern, c_expression = expression, c_complexity = None,
                 c_argumentCopyCount = None, c_argumentContainsMetavariable = None,
                 c_argumentComplexity = None \<rparr>)"

text \<open>For what a call does to the objects it is handed, expressions are objects in a
  heap: a reference is an index into the list of the trees that exist, a new object is
  appended, and a change in place overwrites the tree at its reference. A tree and the
  nodes below it are one object here; trees that are different roots share no node.\<close>

type_synonym ref = nat
type_synonym heap = "expr list"

definition alloc :: "expr \<Rightarrow> heap \<Rightarrow> heap \<times> ref" where
  "alloc v h = (h @ [v], length h)"

text \<open>\<open>target.copy()\<close>: a new object.\<close>

definition copyObject :: "ref \<Rightarrow> heap \<Rightarrow> heap \<times> ref" where
  "copyObject target h = alloc (copy (h ! target)) h"

text \<open>applyTo on an object: the target is changed in place.\<close>

definition applyToObject :: "Substitution \<Rightarrow> ref \<Rightarrow> heap \<Rightarrow> heap" where
  "applyToObject S target h = h[target := applyTo S (h ! target)]"

text \<open>appliedTo on an object: in the corner case a new copy of the expression; otherwise a
  copy of the target is made and applyTo is called on the copy. The heap after the call
  and the reference returned.\<close>

definition appliedToObject :: "Substitution \<Rightarrow> ref \<Rightarrow> heap \<Rightarrow> heap \<times> ref" where
  "appliedToObject S target h =
     (if equals (h ! target) (s_metavariable S) \<and> isA_metavariable (h ! target)
      then alloc (copy (s_expression S)) h
      else (let (h1, cp) = copyObject target h;
                h2 = applyToObject S cp h1
            in (h2, cp)))"

text \<open>A Constraint as an object: its pattern and its expression are references. (The
  cached complexity plays no part in what follows and is left out.)\<close>

record ConstraintObject =
  o_pattern :: ref
  o_expression :: ref

text \<open>The Constraint constructor on references: the two tests read the trees, the new
  object stores the references it was given.\<close>

definition ConstraintObject_new :: "heap \<Rightarrow> ref \<Rightarrow> ref \<Rightarrow> error + ConstraintObject" where
  "ConstraintObject_new h pattern expression =
     (if containsAMetavariable (h ! expression) then Inl ExpressionContainsMetavariable
      else if hasBoundMetavariable (h ! pattern) then Inl PatternContainsBoundMetavariable
      else Inr \<lparr> o_pattern = pattern, o_expression = expression \<rparr>)"

text \<open>afterSubstituting: \<open>newPattern\<close> starts as the pattern of the receiver and is set, for
  each substitution in the order given, to what appliedTo returns for it; a new Constraint
  is then constructed from it and from the expression of the receiver. No field of the
  receiver is assigned. The heap after the call, and what the call returns or throws.\<close>

definition afterSubstituting ::
  "ConstraintObject \<Rightarrow> Substitution list \<Rightarrow> heap \<Rightarrow> heap \<times> (error + ConstraintObject)" where
  "afterSubstituting this subs h =
     (let (h1, newPattern) =
            foldl (\<lambda>(h, newPattern) sub. appliedToObject sub newPattern h)
              (h, o_pattern this) subs
      in (h1, ConstraintObject_new h1 newPattern (o_expression this)))"

definition isAnInstantiation :: "Constraint \<Rightarrow> bool" where
  "isAnInstantiation this =
     (instanceofLurchSymbol (c_pattern this) \<and> isA_metavariable (c_pattern this))"

text \<open>Modelled from the spec: isAnEFA of the expression functions module is missing; an
  Application whose first child is the reserved symbol of the EFA head (the symbol that
  toString prints as @), whose second child is a metavariable, and whose remaining
  children are the arguments.\<close>

fun isAnEFA :: "expr \<Rightarrow> bool" where
  "isAnEFA (Application (h # f # args)) =
     (instanceofLurchSymbol h \<and> text_of h = ''LDE EFA'' \<and>
      instanceofLurchSymbol f \<and> isA_metavariable f)"
| "isAnEFA t = False"

text \<open>The loop of complexity over the arguments of an EFA, from index \<open>i\<close> on; it
  appends to the three arrays.\<close>

function argumentLoop ::
  "de_bruijn \<Rightarrow> expr \<Rightarrow> expr \<Rightarrow> nat \<Rightarrow> nat list \<times> bool list \<times> nat list
     \<Rightarrow> nat list \<times> bool list \<times> nat list" where
  "argumentLoop db pattern expression i (copyCounts, containsMv, complexities) =
     (if i < numChildren pattern then
        (let arg = children pattern ! i;
             copyCount = numberOfOccurrences db arg expression;
             hasMetavariable = containsAMetavariable arg
         in argumentLoop db pattern expression (i + 1)
              (copyCounts @ [copyCount], containsMv @ [hasMetavariable],
               complexities @ [if hasMetavariable then EFAComplexityEstimate else copyCount]))
      else (copyCounts, containsMv, complexities))"
  by pat_completeness auto
termination
  by (relation "measure (\<lambda>(db, pattern, expression, i, acc). numChildren pattern - i)") auto

text \<open>complexity: the cached value if there is one, otherwise the classification, which
  is stored. The pair is the object after the call and the value returned.\<close>

definition complexity :: "de_bruijn \<Rightarrow> Constraint \<Rightarrow> Constraint \<times> nat" where
  "complexity db this =
     (case c_complexity this of
        Some k \<Rightarrow> (this, k)
      | None \<Rightarrow>
          if isAnInstantiation this then (this\<lparr> c_complexity := Some 2 \<rparr>, 2)
          else if isAnEFA (c_pattern this) then
            (let (copyCounts, containsMv, complexities) =
                   argumentLoop db (c_pattern this) (c_expression this) 2 ([], [], []);
                 k = 4 + foldl (\<lambda>a b. a + b) 0 complexities
             in (this\<lparr> c_argumentCopyCount := Some copyCounts,
                       c_argumentContainsMetavariable := Some containsMv,
                       c_argumentComplexity := Some complexities,
                       c_complexity := Some k \<rparr>, k))
          else if \<not> containsAMetavariable (c_pattern this) then
            (let k = (if deBruijnEquals db (c_pattern this) (c_expression this)
                      then 1 else 0)
             in (this\<lparr> c_complexity := Some k \<rparr>, k))
          else
            (let k = (if numChildren (c_pattern this) = numChildren (c_expression this)
                      then 3 else 0)
             in (this\<lparr> c_complexity := Some k \<rparr>, k)))"

definition canBeOnlyConstantEFA :: "Constraint \<Rightarrow> bool" where
  "canBeOnlyConstantEFA this = (c_complexity this = Some 4)"

definition complexityName :: "de_bruijn \<Rightarrow> Constraint \<Rightarrow> Constraint \<times> string" where
  "complexityName db this =
     (let (this1, k) = complexity db this
      in (this1, [''failure'', ''success'', ''instantiation'', ''children'', ''EFA'']
                   ! min k 4))"

text \<open>The Substitution constructor called with one argument, a Constraint: it must be an
  instantiation, or else the constructor throws.\<close>

definition Substitution_fromConstraint :: "Constraint \<Rightarrow> error + Substitution" where
  "Substitution_fromConstraint c =
     (if isAnInstantiation c
      then Inr \<lparr> s_metavariable = c_pattern c, s_expression = c_expression c,
                 s_metavariableNames = None \<rparr>
      else Inl InvalidSubstitutionParameters)"

text \<open>Modelled from the spec: an instance of the de Bruijn module for expressions that
  are already encoded, where equality is structural equality and the occurrences of a
  subexpression are the subtrees structurally equal to it. The statements below are
  evaluated at this instance.\<close>

definition structuralDeBruijn :: de_bruijn where
  "structuralDeBruijn =
     \<lparr> deBruijnEquals = (\<lambda>a b. equals a b),
       numberOfOccurrences = (\<lambda>sub e. length (descendantsSatisfying (\<lambda>d. equals d sub) e)) \<rparr>"

section \<open>Conditions used in the statements\<close>

text \<open>The cache of a Substitution is correct when it is absent or holds the names of the
  metavariables of the expression.\<close>

definition cacheCorrect :: "Substitution \<Rightarrow> bool" where
  "cacheCorrect S =
     (case s_metavariableNames S of
        None \<Rightarrow> True
      | Some names \<Rightarrow> names = metavariableNamesIn (s_expression S))"

text \<open>Every metavariable of the tree that has the name of \<open>M\<close> is \<open>M\<close> itself.\<close>

fun sameNameSameSymbol :: "expr \<Rightarrow> expr \<Rightarrow> bool" where
  "sameNameSameSymbol M (Symbol n m d) =
     (if m \<and> n = text_of M then Symbol n m d = M else True)"
| "sameNameSameSymbol M (Application cs) = list_all (sameNameSameSymbol M) cs"
| "sameNameSameSymbol M (Binder cs) = list_all (sameNameSameSymbol M) cs"

text \<open>The same, for each substitution of a list in turn and the expression it meets: the
  expression as it is after the substitutions before it.\<close>

fun metavariablesAgree :: "expr \<Rightarrow> Substitution list \<Rightarrow> bool" where
  "metavariablesAgree e [] = True"
| "metavariablesAgree e (sub # subs) =
     (sameNameSameSymbol (s_metavariable sub) e \<and>
      metavariablesAgree (appliedTo sub e) subs)"

section \<open>Exchanging nodes one after the other\<close>

declare argumentLoop.simps [simp del]

text \<open>The exchanges below the child at index \<open>i\<close> change that child and nothing else.\<close>

lemma foldl_replaceAt_Application:
  "i < length cs \<Longrightarrow>
   foldl (\<lambda>t p. replaceAt t p e) (Application cs) (map ((#) i) qs) =
   Application (cs[i := foldl (\<lambda>t p. replaceAt t p e) (cs ! i) qs])"
  by (induction qs arbitrary: cs) simp_all

lemma foldl_replaceAt_Binder:
  "i < length cs \<Longrightarrow>
   foldl (\<lambda>t p. replaceAt t p e) (Binder cs) (map ((#) i) qs) =
   Binder (cs[i := foldl (\<lambda>t p. replaceAt t p e) (cs ! i) qs])"
  by (induction qs arbitrary: cs) simp_all

text \<open>The exchanges below the children from some index on, the children before it having
  had their turn.\<close>

lemma foldl_children_Application:
  "foldl (\<lambda>t p. replaceAt t p e) (Application (pre @ ds))
      (descendantsOfChildren P (length pre) ds) =
   Application (pre @ map (\<lambda>c. foldl (\<lambda>t p. replaceAt t p e) c (descendantsSatisfying P c)) ds)"
proof (induction ds arbitrary: pre)
  case Nil
  then show ?case by simp
next
  case (Cons c ds)
  let ?c' = "foldl (\<lambda>t p. replaceAt t p e) c (descendantsSatisfying P c)"
  have "foldl (\<lambda>t p. replaceAt t p e) (Application (pre @ c # ds))
          (map ((#) (length pre)) (descendantsSatisfying P c)) =
        Application ((pre @ [?c']) @ ds)"
    by (simp add: foldl_replaceAt_Application)
  moreover have "Suc (length pre) = length (pre @ [?c'])"
    by simp
  ultimately show ?case
    using Cons.IH [of "pre @ [?c']"] by simp
qed

lemma foldl_children_Binder:
  "foldl (\<lambda>t p. replaceAt t p e) (Binder (pre @ ds))
      (descendantsOfChildren P (length pre) ds) =
   Binder (pre @ map (\<lambda>c. foldl (\<lambda>t p. replaceAt t p e) c (descendantsSatisfying P c)) ds)"
proof (induction ds arbitrary: pre)
  case Nil
  then show ?case by simp
next
  case (Cons c ds)
  let ?c' = "foldl (\<lambda>t p. replaceAt t p e) c (descendantsSatisfying P c)"
  have "foldl (\<lambda>t p. replaceAt t p e) (Binder (pre @ c # ds))
          (map ((#) (length pre)) (descendantsSatisfying P c)) =
        Binder ((pre @ [?c']) @ ds)"
    by (simp add: foldl_replaceAt_Binder)
  moreover have "Suc (length pre) = length (pre @ [?c'])"
    by simp
  ultimately show ?case
    using Cons.IH [of "pre @ [?c']"] by simp
qed

text \<open>Exchanging every node equal to a Symbol, the root included, gives the simultaneous
  replacement.\<close>

lemma foldl_replaceAt_matches:
  "foldl (\<lambda>t p. replaceAt t p e) t
     (descendantsSatisfying (\<lambda>d. equals d (Symbol n m k)) t) =
   simultaneousReplacement (Symbol n m k) e t"
proof (induction t)
  case (Symbol n' m' k')
  then show ?case by (simp add: equals_def)
next
  case (Application cs)
  have "foldl (\<lambda>t p. replaceAt t p e) (Application ([] @ cs))
          (descendantsOfChildren (\<lambda>d. equals d (Symbol n m k)) (length ([]::expr list)) cs) =
        Application ([] @ map (\<lambda>c. foldl (\<lambda>t p. replaceAt t p e) c
          (descendantsSatisfying (\<lambda>d. equals d (Symbol n m k)) c)) cs)"
    by (rule foldl_children_Application)
  with Application show ?case by (simp add: equals_def cong: map_cong)
next
  case (Binder cs)
  have "foldl (\<lambda>t p. replaceAt t p e) (Binder ([] @ cs))
          (descendantsOfChildren (\<lambda>d. equals d (Symbol n m k)) (length ([]::expr list)) cs) =
        Binder ([] @ map (\<lambda>c. foldl (\<lambda>t p. replaceAt t p e) c
          (descendantsSatisfying (\<lambda>d. equals d (Symbol n m k)) c)) cs)"
    by (rule foldl_children_Binder)
  with Binder show ?case by (simp add: equals_def cong: map_cong)
qed

lemma root_not_among_children: "[] \<notin> set (descendantsOfChildren P i cs)"
  by (induction cs arbitrary: i) auto

lemma root_among_descendants: "[] \<in> set (descendantsSatisfying P t) \<longleftrightarrow> P t"
  by (cases t) (simp_all add: root_not_among_children)

lemma foldl_replaceWith_inner:
  "[] \<notin> set ps \<Longrightarrow>
   foldl (\<lambda>t p. replaceWith t p e) t ps = foldl (\<lambda>t p. replaceAt t p e) t ps"
  by (induction ps arbitrary: t) (auto simp: replaceWith_def)

text \<open>The paths found lead to nodes that satisfy the predicate.\<close>

lemma descendantsOfChildren_path:
  "p \<in> set (descendantsOfChildren P i cs) \<Longrightarrow>
   \<exists>j q. p = (i + j) # q \<and> j < length cs \<and> q \<in> set (descendantsSatisfying P (cs ! j))"
proof (induction cs arbitrary: i)
  case Nil
  then show ?case by simp
next
  case (Cons c cs)
  from Cons.prems consider
      (here) q where "p = i # q" "q \<in> set (descendantsSatisfying P c)"
    | (later) "p \<in> set (descendantsOfChildren P (Suc i) cs)"
    by auto
  then show ?case
  proof cases
    case here
    then have "p = (i + 0) # q \<and> 0 < length (c # cs) \<and>
        q \<in> set (descendantsSatisfying P ((c # cs) ! 0))"
      by simp
    then show ?thesis by blast
  next
    case later
    from Cons.IH [OF later] obtain j q where
      "p = (Suc i + j) # q" "j < length cs" "q \<in> set (descendantsSatisfying P (cs ! j))"
      by blast
    then have "p = (i + Suc j) # q \<and> Suc j < length (c # cs) \<and>
        q \<in> set (descendantsSatisfying P ((c # cs) ! Suc j))"
      by simp
    then show ?thesis by blast
  qed
qed

lemma descendantsSatisfying_found:
  "p \<in> set (descendantsSatisfying P t) \<Longrightarrow> \<exists>d. nodeAt t p = Some d \<and> P d"
proof (induction t arbitrary: p)
  case (Symbol n m k)
  then show ?case by (simp split: if_splits)
next
  case (Application cs)
  show ?case
  proof (cases p)
    case Nil
    then show ?thesis using Application.prems by (simp add: root_not_among_children split: if_splits)
  next
    case (Cons i q)
    then have "p \<in> set (descendantsOfChildren P 0 cs)"
      using Application.prems by (auto split: if_splits)
    from descendantsOfChildren_path [OF this] Cons
    have "i < length cs" "q \<in> set (descendantsSatisfying P (cs ! i))" by auto
    then show ?thesis using Application.IH [of "cs ! i" q] Cons by simp
  qed
next
  case (Binder cs)
  show ?case
  proof (cases p)
    case Nil
    then show ?thesis using Binder.prems by (simp add: root_not_among_children split: if_splits)
  next
    case (Cons i q)
    then have "p \<in> set (descendantsOfChildren P 0 cs)"
      using Binder.prems by (auto split: if_splits)
    from descendantsOfChildren_path [OF this] Cons
    have "i < length cs" "q \<in> set (descendantsSatisfying P (cs ! i))" by auto
    then show ?thesis using Binder.IH [of "cs ! i" q] Cons by simp
  qed
qed

text \<open>Below a Symbol there is no node. So of the nodes equal to a metavariable none lies
  inside another, and exchanging one of them leaves the paths to the others as they
  were.\<close>

lemma nothing_below_Symbol:
  "nodeAt t p = Some (Symbol n m k) \<Longrightarrow> nodeAt t (p @ i # q) = None"
  by (induction p arbitrary: t) (auto split: if_splits)

lemma matches_not_nested:
  assumes "p \<in> set (descendantsSatisfying (\<lambda>d. equals d (Symbol n m k)) t)"
  shows "p @ i # q \<notin> set (descendantsSatisfying (\<lambda>d. equals d (Symbol n m k)) t)"
proof
  assume "p @ i # q \<in> set (descendantsSatisfying (\<lambda>d. equals d (Symbol n m k)) t)"
  then obtain d where "nodeAt t (p @ i # q) = Some d"
    using descendantsSatisfying_found by blast
  moreover have "nodeAt t p = Some (Symbol n m k)"
    using descendantsSatisfying_found [OF assms] by (auto simp: equals_def)
  ultimately show False
    using nothing_below_Symbol by fastforce
qed

text \<open>What applyTo leaves behind, and what appliedTo returns.\<close>

lemma applyTo_result:
  assumes "s_metavariable S = Symbol n m k"
  shows "applyTo S target =
    (if target = s_metavariable S then target
     else simultaneousReplacement (s_metavariable S) (s_expression S) target)"
proof (cases "target = s_metavariable S")
  case True
  then show ?thesis using assms by (simp add: applyTo_def equals_def replaceWith_def)
next
  case False
  then have "[] \<notin> set (descendantsSatisfying (\<lambda>d. equals d (s_metavariable S)) target)"
    by (simp add: root_among_descendants equals_def)
  then show ?thesis
    using False assms foldl_replaceAt_matches [of "copy (s_expression S)" target n m k]
    by (simp add: applyTo_def foldl_replaceWith_inner copy_def)
qed

lemma appliedTo_result:
  assumes "isA_metavariable (s_metavariable S)"
  shows "appliedTo S target =
     simultaneousReplacement (s_metavariable S) (s_expression S) target"
proof -
  obtain n m k where M: "s_metavariable S = Symbol n m k"
    using assms by (cases "s_metavariable S") simp_all
  show ?thesis
  proof (cases "target = s_metavariable S")
    case True
    then show ?thesis using assms M by (simp add: appliedTo_def equals_def copy_def)
  next
    case False
    then show ?thesis using applyTo_result [OF M] by (simp add: appliedTo_def equals_def copy_def)
  qed
qed

text \<open>Both constructors give a Substitution whose metavariable is a metavariable.\<close>

lemma Substitution_new_metavariable:
  "Substitution_new M e = Inr S \<Longrightarrow>
   isA_metavariable (s_metavariable S) \<and> s_metavariable S = M \<and> s_expression S = e"
  by (auto simp: Substitution_new_def split: if_splits)

lemma Substitution_fromConstraint_metavariable:
  "Substitution_fromConstraint c = Inr S \<Longrightarrow> isA_metavariable (s_metavariable S)"
  by (auto simp: Substitution_fromConstraint_def isAnInstantiation_def split: if_splits)

section \<open>Claims about applying a Substitution\<close>

text \<open>C4. For every Substitution, with metavariable \<open>M\<close> and expression \<open>e\<close>, and every
  target expression, appliedTo returns the target with every subexpression structurally
  equal to \<open>M\<close> exchanged for \<open>e\<close>, all at once: the function simultaneousReplacement
  does not look into the expressions it inserts.\<close>

theorem appliedTo_simultaneous:
  "isA_metavariable (s_metavariable S) \<Longrightarrow>
   appliedTo S target = simultaneousReplacement (s_metavariable S) (s_expression S) target"
  by (rule appliedTo_result)

text \<open>At \<open>M \<mapsto> f(M)\<close> and the target \<open>g(M, h(M))\<close> the result is \<open>g(f(M), h(f(M)))\<close>: the
  occurrences of \<open>M\<close> that came in with \<open>f(M)\<close> stay.\<close>

theorem appliedTo_simultaneous_witness:
  "isA_metavariable (s_metavariable
      \<lparr> s_metavariable = Symbol ''M'' True None,
        s_expression = Application [Symbol ''f'' False None, Symbol ''M'' True None],
        s_metavariableNames = None \<rparr>) \<and>
   appliedTo
      \<lparr> s_metavariable = Symbol ''M'' True None,
        s_expression = Application [Symbol ''f'' False None, Symbol ''M'' True None],
        s_metavariableNames = None \<rparr>
      (Application [Symbol ''g'' False None, Symbol ''M'' True None,
         Application [Symbol ''h'' False None, Symbol ''M'' True None]]) =
   Application [Symbol ''g'' False None,
     Application [Symbol ''f'' False None, Symbol ''M'' True None],
     Application [Symbol ''h'' False None,
       Application [Symbol ''f'' False None, Symbol ''M'' True None]]]"
proof -
  let ?S = "\<lparr> s_metavariable = Symbol ''M'' True None,
        s_expression = Application [Symbol ''f'' False None, Symbol ''M'' True None],
        s_metavariableNames = None \<rparr>"
  have h: "isA_metavariable (s_metavariable ?S)" by simp
  show ?thesis
    using h appliedTo_simultaneous [OF h,
        of "Application [Symbol ''g'' False None, Symbol ''M'' True None,
              Application [Symbol ''h'' False None, Symbol ''M'' True None]]"]
    by simp
qed

text \<open>C9. For every Substitution and every target without a parent that is structurally
  equal to the metavariable, applyTo leaves the target as it is and appliedTo returns a
  copy of the expression; on every other target appliedTo returns what applyTo makes of
  a copy of the target.\<close>

theorem applyTo_appliedTo_corner_case:
  assumes "isA_metavariable (s_metavariable S)"
  shows "(equals target (s_metavariable S) \<longrightarrow>
            applyTo S target = target \<and> appliedTo S target = copy (s_expression S)) \<and>
         (\<not> equals target (s_metavariable S) \<longrightarrow>
            appliedTo S target = applyTo S (copy target))"
proof -
  obtain n m k where M: "s_metavariable S = Symbol n m k"
    using assms by (cases "s_metavariable S") simp_all
  show ?thesis
    using assms applyTo_result [OF M, of target]
    by (auto simp add: appliedTo_def equals_def)
qed

theorem applyTo_appliedTo_corner_case_witness:
  "isA_metavariable (s_metavariable
      \<lparr> s_metavariable = Symbol ''M'' True None, s_expression = Symbol ''x'' False None,
        s_metavariableNames = None \<rparr>) \<and>
   equals (Symbol ''M'' True None) (s_metavariable
      \<lparr> s_metavariable = Symbol ''M'' True None, s_expression = Symbol ''x'' False None,
        s_metavariableNames = None \<rparr>) \<and>
   applyTo \<lparr> s_metavariable = Symbol ''M'' True None, s_expression = Symbol ''x'' False None,
             s_metavariableNames = None \<rparr> (Symbol ''M'' True None) = Symbol ''M'' True None \<and>
   appliedTo \<lparr> s_metavariable = Symbol ''M'' True None, s_expression = Symbol ''x'' False None,
               s_metavariableNames = None \<rparr> (Symbol ''M'' True None) = Symbol ''x'' False None \<and>
   \<not> equals (Application [Symbol ''M'' True None]) (s_metavariable
      \<lparr> s_metavariable = Symbol ''M'' True None, s_expression = Symbol ''x'' False None,
        s_metavariableNames = None \<rparr>) \<and>
   appliedTo \<lparr> s_metavariable = Symbol ''M'' True None, s_expression = Symbol ''x'' False None,
               s_metavariableNames = None \<rparr> (Application [Symbol ''M'' True None]) =
   applyTo \<lparr> s_metavariable = Symbol ''M'' True None, s_expression = Symbol ''x'' False None,
             s_metavariableNames = None \<rparr> (copy (Application [Symbol ''M'' True None]))"
proof -
  let ?S = "\<lparr> s_metavariable = Symbol ''M'' True None, s_expression = Symbol ''x'' False None,
        s_metavariableNames = None \<rparr>"
  have h: "isA_metavariable (s_metavariable ?S)" by simp
  show ?thesis
    using h applyTo_appliedTo_corner_case [OF h, of "Symbol ''M'' True None"]
      applyTo_appliedTo_corner_case [OF h, of "Application [Symbol ''M'' True None]"]
    by (simp add: equals_def copy_def)
qed

section \<open>Applying a Substitution twice\<close>

lemma no_descendants_children:
  "descendantsOfChildren P i cs = [] \<longleftrightarrow> (\<forall>c\<in>set cs. descendantsSatisfying P c = [])"
  by (induction cs arbitrary: i) auto

lemma replacement_absent:
  "descendantsSatisfying (\<lambda>d. equals d M) t = [] \<Longrightarrow> simultaneousReplacement M e t = t"
proof (induction t)
  case (Symbol n m d)
  then show ?case by (simp add: equals_def split: if_splits)
next
  case (Application cs)
  then show ?case
    by (auto simp add: equals_def no_descendants_children map_idI split: if_splits)
next
  case (Binder cs)
  then show ?case
    by (auto simp add: equals_def no_descendants_children map_idI split: if_splits)
qed

lemma replacement_identity: "simultaneousReplacement M M t = t"
  by (induction t) (auto simp: map_idI)

lemma replacement_idempotent:
  assumes "isA_metavariable M"
    and "e = M \<or> \<not> hasDescendantSatisfying (\<lambda>d. equals d M) e"
  shows "simultaneousReplacement M e (simultaneousReplacement M e t) =
         simultaneousReplacement M e t"
proof (cases "e = M")
  case True
  then show ?thesis by (simp add: replacement_identity)
next
  case False
  with assms(2) have absent: "simultaneousReplacement M e e = e"
    by (simp add: hasDescendantSatisfying_def replacement_absent)
  obtain n m k where M: "M = Symbol n m k"
    using assms(1) by (cases M) simp_all
  show ?thesis
  proof (induction t)
    case (Symbol n' m' k')
    then show ?case using absent by (simp add: M)
  next
    case (Application cs)
    then show ?case by (simp add: M)
  next
    case (Binder cs)
    then show ?case by (simp add: M)
  qed
qed

text \<open>C3, as stated: applying a Substitution twice gives what applying it once gives,
  whatever the expression of the Substitution. It fails at \<open>M \<mapsto> f(M)\<close> and the
  expression \<open>M\<close>: once gives \<open>f(M)\<close>, twice gives \<open>f(f(M))\<close>.\<close>

theorem appliedTo_twice_differs:
  "Substitution_new (Symbol ''M'' True None)
       (Application [Symbol ''f'' False None, Symbol ''M'' True None]) =
     Inr \<lparr> s_metavariable = Symbol ''M'' True None,
           s_expression = Application [Symbol ''f'' False None, Symbol ''M'' True None],
           s_metavariableNames = None \<rparr> \<and>
   appliedTo \<lparr> s_metavariable = Symbol ''M'' True None,
               s_expression = Application [Symbol ''f'' False None, Symbol ''M'' True None],
               s_metavariableNames = None \<rparr> (Symbol ''M'' True None) =
     Application [Symbol ''f'' False None, Symbol ''M'' True None] \<and>
   appliedTo \<lparr> s_metavariable = Symbol ''M'' True None,
               s_expression = Application [Symbol ''f'' False None, Symbol ''M'' True None],
               s_metavariableNames = None \<rparr>
     (appliedTo \<lparr> s_metavariable = Symbol ''M'' True None,
               s_expression = Application [Symbol ''f'' False None, Symbol ''M'' True None],
               s_metavariableNames = None \<rparr> (Symbol ''M'' True None)) =
     Application [Symbol ''f'' False None,
       Application [Symbol ''f'' False None, Symbol ''M'' True None]] \<and>
   appliedTo \<lparr> s_metavariable = Symbol ''M'' True None,
               s_expression = Application [Symbol ''f'' False None, Symbol ''M'' True None],
               s_metavariableNames = None \<rparr>
     (appliedTo \<lparr> s_metavariable = Symbol ''M'' True None,
               s_expression = Application [Symbol ''f'' False None, Symbol ''M'' True None],
               s_metavariableNames = None \<rparr> (Symbol ''M'' True None))
   \<noteq> appliedTo \<lparr> s_metavariable = Symbol ''M'' True None,
               s_expression = Application [Symbol ''f'' False None, Symbol ''M'' True None],
               s_metavariableNames = None \<rparr> (Symbol ''M'' True None)"
  by (simp add: Substitution_new_def appliedTo_def applyTo_def equals_def copy_def
      replaceWith_def)

text \<open>C3, amended: for every Substitution whose expression has no subexpression
  structurally equal to its metavariable, or is the metavariable itself, and every
  expression \<open>x\<close>, applying the Substitution twice gives what applying it once gives.\<close>

theorem appliedTo_idempotent:
  assumes "isA_metavariable (s_metavariable S)"
    and "s_expression S = s_metavariable S \<or>
         \<not> hasDescendantSatisfying (\<lambda>d. equals d (s_metavariable S)) (s_expression S)"
  shows "appliedTo S (appliedTo S x) = appliedTo S x"
  using replacement_idempotent [OF assms]
  by (simp add: appliedTo_result [OF assms(1)])

theorem appliedTo_idempotent_witness:
  "isA_metavariable (s_metavariable
      \<lparr> s_metavariable = Symbol ''M'' True None,
        s_expression = Application [Symbol ''f'' False None, Symbol ''N'' True None],
        s_metavariableNames = None \<rparr>) \<and>
   \<not> hasDescendantSatisfying (\<lambda>d. equals d (Symbol ''M'' True None))
       (Application [Symbol ''f'' False None, Symbol ''N'' True None]) \<and>
   appliedTo
      \<lparr> s_metavariable = Symbol ''M'' True None,
        s_expression = Application [Symbol ''f'' False None, Symbol ''N'' True None],
        s_metavariableNames = None \<rparr>
      (Application [Symbol ''g'' False None, Symbol ''M'' True None]) =
     Application [Symbol ''g'' False None,
       Application [Symbol ''f'' False None, Symbol ''N'' True None]] \<and>
   appliedTo
      \<lparr> s_metavariable = Symbol ''M'' True None,
        s_expression = Application [Symbol ''f'' False None, Symbol ''N'' True None],
        s_metavariableNames = None \<rparr>
      (appliedTo
        \<lparr> s_metavariable = Symbol ''M'' True None,
          s_expression = Application [Symbol ''f'' False None, Symbol ''N'' True None],
          s_metavariableNames = None \<rparr>
        (Application [Symbol ''g'' False None, Symbol ''M'' True None])) =
     Application [Symbol ''g'' False None,
       Application [Symbol ''f'' False None, Symbol ''N'' True None]]"
proof -
  let ?S = "\<lparr> s_metavariable = Symbol ''M'' True None,
        s_expression = Application [Symbol ''f'' False None, Symbol ''N'' True None],
        s_metavariableNames = None \<rparr>"
  let ?x = "Application [Symbol ''g'' False None, Symbol ''M'' True None]"
  have h1: "isA_metavariable (s_metavariable ?S)" by simp
  have h2: "s_expression ?S = s_metavariable ?S \<or>
         \<not> hasDescendantSatisfying (\<lambda>d. equals d (s_metavariable ?S)) (s_expression ?S)"
    by (simp add: hasDescendantSatisfying_def equals_def)
  have once: "appliedTo ?S ?x = Application [Symbol ''g'' False None,
       Application [Symbol ''f'' False None, Symbol ''N'' True None]]"
    by (simp add: appliedTo_def applyTo_def equals_def copy_def replaceWith_def)
  show ?thesis
    using h1 h2 once appliedTo_idempotent [OF h1 h2, of ?x]
    by (simp add: hasDescendantSatisfying_def equals_def)
qed

section \<open>The cache of metavariable names\<close>

text \<open>The names after a replacement, when the metavariables of the name replaced are
  all the metavariable replaced.\<close>

lemma names_after_replacement:
  "sameNameSameSymbol (Symbol n True k) t \<Longrightarrow>
   metavariableNamesIn (simultaneousReplacement (Symbol n True k) e t) =
     (metavariableNamesIn t - {n}) \<union>
     (if n \<in> metavariableNamesIn t then metavariableNamesIn e else {})"
proof (induction t)
  case (Symbol n' m' k')
  then show ?case by (auto split: if_splits)
next
  case (Application cs)
  then have "\<forall>c\<in>set cs. metavariableNamesIn (simultaneousReplacement (Symbol n True k) e c) =
     (metavariableNamesIn c - {n}) \<union>
     (if n \<in> metavariableNamesIn c then metavariableNamesIn e else {})"
    by (simp add: list_all_iff)
  then show ?case by (auto split: if_splits)
next
  case (Binder cs)
  then have "\<forall>c\<in>set cs. metavariableNamesIn (simultaneousReplacement (Symbol n True k) e c) =
     (metavariableNamesIn c - {n}) \<union>
     (if n \<in> metavariableNamesIn c then metavariableNamesIn e else {})"
    by (simp add: list_all_iff)
  then show ?case by (auto split: if_splits)
qed

lemma replacement_unnamed:
  "n \<notin> metavariableNamesIn t \<Longrightarrow> simultaneousReplacement (Symbol n True k) e t = t"
  by (induction t) (auto simp: map_idI)

lemma metavariableNames_value:
  "cacheCorrect S \<Longrightarrow>
   metavariableNames S =
     (S\<lparr> s_metavariableNames := Some (metavariableNamesIn (s_expression S)) \<rparr>,
      metavariableNamesIn (s_expression S))"
  by (cases "s_metavariableNames S")
     (auto simp: metavariableNames_def cacheCorrect_def Let_def)

text \<open>One round between two different objects: the receiver gets the new expression and a
  correct cache, the other object gets at most its cache filled, and no third object is
  touched.\<close>

lemma substituteOne_apart:
  assumes "this \<noteq> sub" "cacheCorrect (h this)" "cacheCorrect (h sub)"
    and "isA_metavariable (s_metavariable (h sub))"
    and "sameNameSameSymbol (s_metavariable (h sub)) (s_expression (h this))"
  shows "s_expression (substituteOne this sub h this) =
           appliedTo (h sub) (s_expression (h this))"
    and "cacheCorrect (substituteOne this sub h this)"
    and "cacheCorrect (substituteOne this sub h sub)"
    and "s_metavariable (substituteOne this sub h a) = s_metavariable (h a)"
    and "a \<noteq> this \<Longrightarrow> s_expression (substituteOne this sub h a) = s_expression (h a)"
    and "a \<noteq> this \<Longrightarrow> a \<noteq> sub \<Longrightarrow> substituteOne this sub h a = h a"
proof -
  obtain n k where M: "s_metavariable (h sub) = Symbol n True k"
    using assms(4) by (cases "s_metavariable (h sub)") simp_all
  have app: "appliedTo (h sub) t =
      simultaneousReplacement (Symbol n True k) (s_expression (h sub)) t" for t
    using appliedTo_result [OF assms(4)] M by simp
  note defs = substituteOne_def metavariableNamesAt_def
    metavariableNames_value [OF assms(2)] metavariableNames_value [OF assms(3)]
  show "s_expression (substituteOne this sub h this) =
           appliedTo (h sub) (s_expression (h this))"
    using assms(1) M by (simp add: defs app replacement_unnamed)
  show "cacheCorrect (substituteOne this sub h this)"
    using assms(1,5) M
    by (simp add: defs app replacement_unnamed names_after_replacement cacheCorrect_def)
  show "cacheCorrect (substituteOne this sub h sub)"
    using assms(1,3) M by (auto simp add: defs cacheCorrect_def split: option.splits)
  show "s_metavariable (substituteOne this sub h a) = s_metavariable (h a)"
    using assms(1) M by (simp add: defs)
  show "a \<noteq> this \<Longrightarrow> s_expression (substituteOne this sub h a) = s_expression (h a)"
    using assms(1) M by (simp add: defs)
  show "a \<noteq> this \<Longrightarrow> a \<noteq> sub \<Longrightarrow> substituteOne this sub h a = h a"
    using assms(1) M by (simp add: defs)
qed

text \<open>A call whose receiver is not among its arguments.\<close>

lemma substitute_apart:
  assumes "this \<notin> set subs" "cacheCorrect (h this)"
    and "\<forall>a\<in>set subs. cacheCorrect (h a) \<and> isA_metavariable (s_metavariable (h a))"
    and "metavariablesAgree (s_expression (h this)) (map h subs)"
  shows "s_expression (substitute this subs h this) =
           foldl (\<lambda>x sub. appliedTo sub x) (s_expression (h this)) (map h subs) \<and>
         cacheCorrect (substitute this subs h this)"
  using assms
proof (induction subs arbitrary: h)
  case Nil
  then show ?case by (simp add: substitute_def)
next
  case (Cons sub subs)
  let ?h = "substituteOne this sub h"
  have ne: "this \<noteq> sub" using Cons.prems(1) by auto
  have c1: "cacheCorrect (h this)" by (rule Cons.prems(2))
  have c2: "cacheCorrect (h sub)" "isA_metavariable (s_metavariable (h sub))"
    using Cons.prems(3) by simp_all
  have ag: "sameNameSameSymbol (s_metavariable (h sub)) (s_expression (h this))"
    using Cons.prems(4) by simp
  note one = substituteOne_apart [OF ne c1 c2(1) c2(2) ag]
  have same: "appliedTo (?h a) = appliedTo (h a)" if "a \<in> set subs" for a
  proof -
    from that Cons.prems(1) have "a \<noteq> this" by auto
    then have "s_metavariable (?h a) = s_metavariable (h a)"
        "s_expression (?h a) = s_expression (h a)"
      using one(4) [of a] one(5) [of a] by simp_all
    then show ?thesis by (simp add: appliedTo_def applyTo_def fun_eq_iff Let_def)
  qed
  have agree_cong: "metavariablesAgree e (map ?h xs) = metavariablesAgree e (map h xs)"
    if "set xs \<subseteq> set subs" for xs e
    using that
  proof (induction xs arbitrary: e)
    case Nil
    then show ?case by simp
  next
    case (Cons x xs)
    then have "x \<in> set subs" by simp
    then show ?case using Cons same [of x] one(4) [of x] by simp
  qed
  have fold_cong: "foldl (\<lambda>x sub. appliedTo sub x) e (map ?h xs) =
      foldl (\<lambda>x sub. appliedTo sub x) e (map h xs)"
    if "set xs \<subseteq> set subs" for xs e
    using that
  proof (induction xs arbitrary: e)
    case Nil
    then show ?case by simp
  next
    case (Cons x xs)
    then have "x \<in> set subs" by simp
    then show ?case using Cons same [of x] by simp
  qed
  have p1: "this \<notin> set subs" using Cons.prems(1) by simp
  have p2: "cacheCorrect (?h this)" by (rule one(2))
  have p3: "\<forall>a\<in>set subs. cacheCorrect (?h a) \<and> isA_metavariable (s_metavariable (?h a))"
  proof
    fix a assume a: "a \<in> set subs"
    then have "a \<noteq> this" using p1 by auto
    show "cacheCorrect (?h a) \<and> isA_metavariable (s_metavariable (?h a))"
    proof (cases "a = sub")
      case True
      then show ?thesis using one(3) one(4) [of sub] c2(2) by simp
    next
      case False
      then show ?thesis using one(6) [OF \<open>a \<noteq> this\<close> False] Cons.prems(3) a by simp
    qed
  qed
  have p4: "metavariablesAgree (s_expression (?h this)) (map ?h subs)"
    using Cons.prems(4) one(1) agree_cong [of subs] by simp
  show ?case
    using Cons.IH [OF p1 p2 p3 p4] one(1) fold_cong [of subs]
    by (simp add: substitute_def)
qed

text \<open>C7. The claim: for every Substitution, a call of substitute replaces its expression
  with the result of applying the substitutions given to it in their order, and
  afterwards metavariableNames returns the set of the names of the metavariables of the
  new expression. The code does not keep the second half when a Substitution \<open>M \<mapsto> f(M)\<close>
  is handed to its own substitute: the expression becomes \<open>f(f(M))\<close>, the name \<open>M\<close> is
  deleted from the cached set, and the names to be added are read from that same set, so
  \<open>M\<close> does not come back; metavariableNames then returns the empty set.\<close>

theorem substitute_self_cache_stale:
  "Substitution_new (Symbol ''M'' True None)
       (Application [Symbol ''f'' False None, Symbol ''M'' True None]) =
     Inr \<lparr> s_metavariable = Symbol ''M'' True None,
           s_expression = Application [Symbol ''f'' False None, Symbol ''M'' True None],
           s_metavariableNames = None \<rparr> \<and>
   s_expression (substitute 0 [0]
      (\<lambda>a. \<lparr> s_metavariable = Symbol ''M'' True None,
              s_expression = Application [Symbol ''f'' False None, Symbol ''M'' True None],
              s_metavariableNames = None \<rparr>) 0) =
     Application [Symbol ''f'' False None,
       Application [Symbol ''f'' False None, Symbol ''M'' True None]] \<and>
   snd (metavariableNames (substitute 0 [0]
      (\<lambda>a. \<lparr> s_metavariable = Symbol ''M'' True None,
              s_expression = Application [Symbol ''f'' False None, Symbol ''M'' True None],
              s_metavariableNames = None \<rparr>) 0)) = {} \<and>
   metavariableNamesIn
     (Application [Symbol ''f'' False None,
        Application [Symbol ''f'' False None, Symbol ''M'' True None]]) = {''M''}"
  by (simp add: Substitution_new_def substitute_def substituteOne_def metavariableNamesAt_def
      metavariableNames_def appliedTo_def applyTo_def equals_def copy_def replaceWith_def
      Let_def)

text \<open>The cache goes stale between two different objects as well, when the expression of
  the receiver holds a metavariable that has the name of the metavariable substituted for
  but is not structurally equal to it (here it carries a de Bruijn marker): nothing is
  replaced, yet the name is deleted.\<close>

lemma substitute_marker_cache_stale:
  "s_expression (substitute 0 [1]
      ((\<lambda>a. \<lparr> s_metavariable = Symbol ''A'' True None,
               s_expression = Symbol ''M'' True (Some (0, 0)),
               s_metavariableNames = None \<rparr>)
       (1 := \<lparr> s_metavariable = Symbol ''M'' True None,
               s_expression = Symbol ''x'' False None,
               s_metavariableNames = None \<rparr>)) 0) = Symbol ''M'' True (Some (0, 0)) \<and>
   snd (metavariableNames (substitute 0 [1]
      ((\<lambda>a. \<lparr> s_metavariable = Symbol ''A'' True None,
               s_expression = Symbol ''M'' True (Some (0, 0)),
               s_metavariableNames = None \<rparr>)
       (1 := \<lparr> s_metavariable = Symbol ''M'' True None,
               s_expression = Symbol ''x'' False None,
               s_metavariableNames = None \<rparr>)) 0)) = {} \<and>
   metavariableNamesIn (Symbol ''M'' True (Some (0, 0))) = {''M''}"
  by (simp add: substitute_def substituteOne_def metavariableNamesAt_def
      metavariableNames_def appliedTo_def applyTo_def equals_def copy_def replaceWith_def
      Let_def)

section \<open>Constructing a Constraint\<close>

lemma Constraint_new_fresh:
  "Constraint_new p e = Inr c \<Longrightarrow>
   c_pattern c = p \<and> c_expression c = e \<and> c_complexity c = None"
  by (auto simp: Constraint_new_def split: if_splits)

text \<open>C6. The Constraint constructor throws if and only if the expression contains a
  metavariable or the pattern contains a bound metavariable; the Constraint it constructs
  otherwise holds the pattern and the expression given.\<close>

theorem Constraint_new_throws_iff:
  "((\<exists>err. Constraint_new p e = Inl err) \<longleftrightarrow>
      containsAMetavariable e \<or> hasBoundMetavariable p) \<and>
   (Constraint_new p e = Inr c \<longrightarrow> c_pattern c = p \<and> c_expression c = e)"
  by (auto simp: Constraint_new_def)

theorem Constraint_new_throws_iff_witness:
  "Constraint_new (Application [Symbol ''+'' False None, Symbol ''A'' True None])
       (Symbol ''x'' False None) =
     Inr \<lparr> c_pattern = Application [Symbol ''+'' False None, Symbol ''A'' True None],
           c_expression = Symbol ''x'' False None, c_complexity = None,
           c_argumentCopyCount = None, c_argumentContainsMetavariable = None,
           c_argumentComplexity = None \<rparr> \<and>
   c_pattern \<lparr> c_pattern = Application [Symbol ''+'' False None, Symbol ''A'' True None],
           c_expression = Symbol ''x'' False None, c_complexity = None,
           c_argumentCopyCount = None, c_argumentContainsMetavariable = None,
           c_argumentComplexity = None \<rparr> =
     Application [Symbol ''+'' False None, Symbol ''A'' True None] \<and>
   containsAMetavariable (Symbol ''A'' True None) \<and>
   (\<exists>err. Constraint_new (Symbol ''x'' False None) (Symbol ''A'' True None) = Inl err) \<and>
   hasBoundMetavariable
     (Binder [Symbol ''forall'' False None, Symbol ''X'' True None, Symbol ''X'' True None]) \<and>
   (\<exists>err. Constraint_new
      (Binder [Symbol ''forall'' False None, Symbol ''X'' True None, Symbol ''X'' True None])
      (Symbol ''x'' False None) = Inl err)"
proof -
  let ?p = "Application [Symbol ''+'' False None, Symbol ''A'' True None]"
  let ?c = "\<lparr> c_pattern = ?p,
           c_expression = Symbol ''x'' False None, c_complexity = None,
           c_argumentCopyCount = None, c_argumentContainsMetavariable = None,
           c_argumentComplexity = None \<rparr>"
  have h: "Constraint_new ?p (Symbol ''x'' False None) = Inr ?c"
    by (simp add: Constraint_new_def containsAMetavariable_def hasDescendantSatisfying_def
        hasBoundMetavariable_def)
  have m: "containsAMetavariable (Symbol ''A'' True None)"
    by (simp add: containsAMetavariable_def hasDescendantSatisfying_def)
  have b: "hasBoundMetavariable
     (Binder [Symbol ''forall'' False None, Symbol ''X'' True None, Symbol ''X'' True None])"
    by (simp add: hasBoundMetavariable_def boundVariableNames_def)
  show ?thesis
    using h m b
      Constraint_new_throws_iff [of ?p "Symbol ''x'' False None" ?c]
      Constraint_new_throws_iff [of "Symbol ''x'' False None" "Symbol ''A'' True None" ?c]
      Constraint_new_throws_iff [of
        "Binder [Symbol ''forall'' False None, Symbol ''X'' True None, Symbol ''X'' True None]"
        "Symbol ''x'' False None" ?c]
    by simp
qed

section \<open>afterSubstituting\<close>

text \<open>appliedTo on an object changes no object that exists: it appends one, which holds
  what appliedTo makes of the tree of the target, and returns the reference to it.\<close>

lemma appliedToObject_appends:
  "appliedToObject S target h = (h @ [appliedTo S (h ! target)], length h)"
  by (simp add: appliedToObject_def appliedTo_def alloc_def copyObject_def
      applyToObject_def Let_def)

text \<open>The loop of afterSubstituting: the heap grows by one object for each substitution,
  and \<open>newPattern\<close> ends at the tree that the substitutions make of the pattern.\<close>

lemma appliedToObject_loop:
  assumes "a < length h"
  shows "\<exists>ext a'. foldl (\<lambda>(h, newPattern) sub. appliedToObject sub newPattern h) (h, a) subs =
             (h @ ext, a') \<and>
           length ext = length subs \<and> a' < length (h @ ext) \<and>
           (subs = [] \<longrightarrow> a' = a) \<and> (subs \<noteq> [] \<longrightarrow> length h \<le> a') \<and>
           (h @ ext) ! a' = foldl (\<lambda>p sub. appliedTo sub p) (h ! a) subs"
  using assms
proof (induction subs arbitrary: h a)
  case Nil
  then show ?case by simp
next
  case (Cons sub subs)
  let ?v = "appliedTo sub (h ! a)"
  have "length h < length (h @ [?v])" by simp
  from Cons.IH [OF this] obtain ext a' where ih:
    "foldl (\<lambda>(h, newPattern) sub. appliedToObject sub newPattern h)
        (h @ [?v], length h) subs = ((h @ [?v]) @ ext, a')"
    "length ext = length subs" "a' < length ((h @ [?v]) @ ext)"
    "subs = [] \<longrightarrow> a' = length h" "subs \<noteq> [] \<longrightarrow> length (h @ [?v]) \<le> a'"
    "((h @ [?v]) @ ext) ! a' = foldl (\<lambda>p sub. appliedTo sub p) ((h @ [?v]) ! length h) subs"
    by blast
  have "foldl (\<lambda>(h, newPattern) sub. appliedToObject sub newPattern h) (h, a) (sub # subs) =
          (h @ (?v # ext), a') \<and>
        length (?v # ext) = length (sub # subs) \<and> a' < length (h @ (?v # ext)) \<and>
        (sub # subs = [] \<longrightarrow> a' = a) \<and> (sub # subs \<noteq> [] \<longrightarrow> length h \<le> a') \<and>
        (h @ (?v # ext)) ! a' = foldl (\<lambda>p sub. appliedTo sub p) (h ! a) (sub # subs)"
    using ih by (cases "subs = []") (simp_all add: appliedToObject_appends)
  then show ?case by blast
qed

text \<open>C8, as stated: for every Constraint and every list of Substitutions,
  afterSubstituting returns a new Constraint. It does not where the pattern, after the
  substitutions, contains a bound metavariable: the constructor it calls throws. Here the
  pattern \<open>M\<close> becomes a Binder that binds the metavariable \<open>X\<close>.\<close>

theorem afterSubstituting_throws:
  "ConstraintObject_new [Symbol ''M'' True None, Symbol ''x'' False None] 0 1 =
     Inr \<lparr> o_pattern = 0, o_expression = 1 \<rparr> \<and>
   Substitution_new (Symbol ''M'' True None)
       (Binder [Symbol ''forall'' False None, Symbol ''X'' True None, Symbol ''X'' True None]) =
     Inr \<lparr> s_metavariable = Symbol ''M'' True None,
           s_expression = Binder [Symbol ''forall'' False None, Symbol ''X'' True None,
                                  Symbol ''X'' True None],
           s_metavariableNames = None \<rparr> \<and>
   snd (afterSubstituting \<lparr> o_pattern = 0, o_expression = 1 \<rparr>
         [\<lparr> s_metavariable = Symbol ''M'' True None,
            s_expression = Binder [Symbol ''forall'' False None, Symbol ''X'' True None,
                                   Symbol ''X'' True None],
            s_metavariableNames = None \<rparr>]
         [Symbol ''M'' True None, Symbol ''x'' False None]) =
     Inl PatternContainsBoundMetavariable"
  by (simp add: ConstraintObject_new_def Substitution_new_def afterSubstituting_def
      appliedToObject_def alloc_def equals_def copy_def containsAMetavariable_def
      hasDescendantSatisfying_def hasBoundMetavariable_def boundVariableNames_def)

text \<open>C8, amended: for every Constraint and every list of Substitutions, afterSubstituting
  changes no object that exists when it is called, so the pattern and the expression of
  the Constraint are after the call what they were before it; and it either throws, which
  it does exactly when the pattern with the substitutions applied in the order given
  contains a bound metavariable, or returns a new Constraint whose pattern is that
  pattern, a new object if there is a substitution at all, and whose expression is the
  expression of the Constraint, the same object, unchanged.\<close>

theorem afterSubstituting_frame:
  assumes "o_pattern c < length h" "o_expression c < length h"
    and "\<not> containsAMetavariable (h ! o_expression c)"
  shows "take (length h) (fst (afterSubstituting c subs h)) = h \<and>
    fst (afterSubstituting c subs h) ! o_pattern c = h ! o_pattern c \<and>
    fst (afterSubstituting c subs h) ! o_expression c = h ! o_expression c \<and>
    (case snd (afterSubstituting c subs h) of
       Inl err \<Rightarrow>
         err = PatternContainsBoundMetavariable \<and>
         hasBoundMetavariable (foldl (\<lambda>p sub. appliedTo sub p) (h ! o_pattern c) subs)
     | Inr c' \<Rightarrow>
         \<not> hasBoundMetavariable (foldl (\<lambda>p sub. appliedTo sub p) (h ! o_pattern c) subs) \<and>
         fst (afterSubstituting c subs h) ! o_pattern c' =
           foldl (\<lambda>p sub. appliedTo sub p) (h ! o_pattern c) subs \<and>
         (if subs = [] then o_pattern c' = o_pattern c else length h \<le> o_pattern c') \<and>
         o_expression c' = o_expression c \<and>
         fst (afterSubstituting c subs h) ! o_expression c' = h ! o_expression c)"
proof -
  from appliedToObject_loop [OF assms(1), of subs] obtain ext a' where loop:
    "foldl (\<lambda>(h, newPattern) sub. appliedToObject sub newPattern h) (h, o_pattern c) subs =
       (h @ ext, a')"
    "subs = [] \<longrightarrow> a' = o_pattern c" "subs \<noteq> [] \<longrightarrow> length h \<le> a'"
    "(h @ ext) ! a' = foldl (\<lambda>p sub. appliedTo sub p) (h ! o_pattern c) subs"
    by blast
  have old: "(h @ ext) ! o_pattern c = h ! o_pattern c"
       "(h @ ext) ! o_expression c = h ! o_expression c"
    using assms(1,2) by (simp_all add: nth_append)
  show ?thesis
    using loop old assms(3)
    by (simp add: afterSubstituting_def ConstraintObject_new_def)
qed

theorem afterSubstituting_frame_witness:
  "(0::nat) < length [Application [Symbol ''A'' True None, Symbol ''B'' True None],
                      Symbol ''x'' False None] \<and>
   (1::nat) < length [Application [Symbol ''A'' True None, Symbol ''B'' True None],
                      Symbol ''x'' False None] \<and>
   \<not> containsAMetavariable (Symbol ''x'' False None) \<and>
   afterSubstituting \<lparr> o_pattern = 0, o_expression = 1 \<rparr>
     [\<lparr> s_metavariable = Symbol ''A'' True None, s_expression = Symbol ''y'' False None,
        s_metavariableNames = None \<rparr>]
     [Application [Symbol ''A'' True None, Symbol ''B'' True None], Symbol ''x'' False None] =
   ([Application [Symbol ''A'' True None, Symbol ''B'' True None], Symbol ''x'' False None,
     Application [Symbol ''y'' False None, Symbol ''B'' True None]],
    Inr \<lparr> o_pattern = 2, o_expression = 1 \<rparr>)"
proof -
  let ?h = "[Application [Symbol ''A'' True None, Symbol ''B'' True None],
             Symbol ''x'' False None]"
  let ?c = "\<lparr> o_pattern = 0, o_expression = 1 \<rparr>"
  let ?subs = "[\<lparr> s_metavariable = Symbol ''A'' True None,
                  s_expression = Symbol ''y'' False None, s_metavariableNames = None \<rparr>]"
  have h1: "o_pattern ?c < length ?h" by simp
  have h2: "o_expression ?c < length ?h" by simp
  have h3: "\<not> containsAMetavariable (?h ! o_expression ?c)"
    by (simp add: containsAMetavariable_def hasDescendantSatisfying_def)
  have "afterSubstituting ?c ?subs ?h =
     (?h @ [Application [Symbol ''y'' False None, Symbol ''B'' True None]],
      Inr \<lparr> o_pattern = 2, o_expression = 1 \<rparr>)"
    by (simp add: afterSubstituting_def ConstraintObject_new_def appliedToObject_def
        copyObject_def alloc_def applyToObject_def applyTo_def
        equals_def copy_def replaceWith_def containsAMetavariable_def
        hasDescendantSatisfying_def hasBoundMetavariable_def)
  then show ?thesis
    using h1 h2 h3 afterSubstituting_frame [OF h1 h2 h3, of ?subs]
    by (simp add: containsAMetavariable_def hasDescendantSatisfying_def)
qed

section \<open>The complexity of a Constraint\<close>

text \<open>The loop over the arguments, in closed form.\<close>

lemma argumentLoop_closed:
  "argumentLoop db p e i (cc, cm, cx) =
     (cc @ map (\<lambda>a. numberOfOccurrences db a e) (drop i (children p)),
      cm @ map containsAMetavariable (drop i (children p)),
      cx @ map (\<lambda>a. if containsAMetavariable a then EFAComplexityEstimate
                      else numberOfOccurrences db a e) (drop i (children p)))"
proof (induction db p e i "(cc, cm, cx)" arbitrary: cc cm cx rule: argumentLoop.induct)
  case (1 db p e i cc cm cx)
  show ?case
  proof (cases "i < numChildren p")
    case True
    then have d: "drop i (children p) = children p ! i # drop (Suc i) (children p)"
      by (simp add: numChildren_def Cons_nth_drop_Suc)
    show ?thesis
      using True "1" [OF True refl refl refl] d
      by (subst argumentLoop.simps) (simp add: Let_def)
  next
    case False
    then show ?thesis
      by (subst argumentLoop.simps) (simp add: numChildren_def)
  qed
qed

lemma foldl_plus: "foldl (\<lambda>a b. a + b) (k::nat) xs = k + sum_list xs"
  by (induction xs arbitrary: k) simp_all

lemma EFA_not_symbol: "isAnEFA p \<Longrightarrow> \<not> instanceofLurchSymbol p"
  by (cases p) simp_all

lemma sum_list_map_zero:
  "sum_list (map f xs) = (0::nat) \<longleftrightarrow> (\<forall>a\<in>set xs. f a = 0)"
  by (induction xs) auto

lemma complexity_EFA:
  assumes "isAnEFA p" "Constraint_new p e = Inr c"
  shows "\<exists>c'. complexity db c = (c', 4 + (\<Sum>a\<leftarrow>drop 2 (children p).
           if containsAMetavariable a then 2 else numberOfOccurrences db a e)) \<and>
           c_complexity c' = Some (4 + (\<Sum>a\<leftarrow>drop 2 (children p).
           if containsAMetavariable a then 2 else numberOfOccurrences db a e))"
  using assms Constraint_new_fresh [OF assms(2)] EFA_not_symbol [OF assms(1)]
  by (simp add: complexity_def isAnInstantiation_def foldl_plus Let_def
      argumentLoop_closed [unfolded EFAComplexityEstimate_def])

text \<open>The value is stored: a second call returns it and changes nothing.\<close>

lemma complexity_memoised:
  "complexity db (fst (complexity db c)) = (fst (complexity db c), snd (complexity db c))"
  by (cases "c_complexity c")
     (auto simp add: complexity_def Let_def split: prod.splits)

text \<open>C1. For every Constraint with pattern \<open>p\<close> and expression \<open>e\<close>, complexity
  classifies by the first case that applies: a lone metavariable is an instantiation
  (2); otherwise an EFA is of the EFA class (4 or more); otherwise a pattern without
  metavariables is a success (1) if it is de Bruijn equal to \<open>e\<close> and a failure (0) if
  not; otherwise the Constraint is of the children class (3) if \<open>p\<close> and \<open>e\<close> have the
  same number of children, and a failure (0) if not. complexityName names the class.\<close>

theorem complexity_classification:
  assumes "Constraint_new p e = Inr c"
  shows "(instanceofLurchSymbol p \<and> isA_metavariable p \<longrightarrow>
            snd (complexity db c) = 2 \<and> snd (complexityName db c) = ''instantiation'') \<and>
         (\<not> (instanceofLurchSymbol p \<and> isA_metavariable p) \<and> isAnEFA p \<longrightarrow>
            4 \<le> snd (complexity db c) \<and> snd (complexityName db c) = ''EFA'') \<and>
         (\<not> (instanceofLurchSymbol p \<and> isA_metavariable p) \<and> \<not> isAnEFA p \<and>
          \<not> containsAMetavariable p \<longrightarrow>
            snd (complexity db c) = (if deBruijnEquals db p e then 1 else 0) \<and>
            snd (complexityName db c) =
              (if deBruijnEquals db p e then ''success'' else ''failure'')) \<and>
         (\<not> (instanceofLurchSymbol p \<and> isA_metavariable p) \<and> \<not> isAnEFA p \<and>
          containsAMetavariable p \<longrightarrow>
            snd (complexity db c) = (if numChildren p = numChildren e then 3 else 0) \<and>
            snd (complexityName db c) =
              (if numChildren p = numChildren e then ''children'' else ''failure''))"
  using Constraint_new_fresh [OF assms]
  by (auto simp add: complexity_def complexityName_def isAnInstantiation_def Let_def
      split: prod.splits)

theorem complexity_classification_witness:
  "Constraint_new (Symbol ''A'' True None) (Symbol ''x'' False None) =
     Inr \<lparr> c_pattern = Symbol ''A'' True None, c_expression = Symbol ''x'' False None,
           c_complexity = None, c_argumentCopyCount = None,
           c_argumentContainsMetavariable = None, c_argumentComplexity = None \<rparr> \<and>
   snd (complexity structuralDeBruijn
         \<lparr> c_pattern = Symbol ''A'' True None, c_expression = Symbol ''x'' False None,
           c_complexity = None, c_argumentCopyCount = None,
           c_argumentContainsMetavariable = None, c_argumentComplexity = None \<rparr>) = 2 \<and>
   Constraint_new
       (Application [Symbol ''LDE EFA'' False None, Symbol ''F'' True None,
                     Symbol ''y'' False None])
       (Symbol ''y'' False None) =
     Inr \<lparr> c_pattern = Application [Symbol ''LDE EFA'' False None, Symbol ''F'' True None,
                                    Symbol ''y'' False None],
           c_expression = Symbol ''y'' False None,
           c_complexity = None, c_argumentCopyCount = None,
           c_argumentContainsMetavariable = None, c_argumentComplexity = None \<rparr> \<and>
   snd (complexityName structuralDeBruijn
         \<lparr> c_pattern = Application [Symbol ''LDE EFA'' False None, Symbol ''F'' True None,
                                    Symbol ''y'' False None],
           c_expression = Symbol ''y'' False None,
           c_complexity = None, c_argumentCopyCount = None,
           c_argumentContainsMetavariable = None, c_argumentComplexity = None \<rparr>) = ''EFA'' \<and>
   Constraint_new (Symbol ''3'' False None) (Symbol ''3'' False None) =
     Inr \<lparr> c_pattern = Symbol ''3'' False None, c_expression = Symbol ''3'' False None,
           c_complexity = None, c_argumentCopyCount = None,
           c_argumentContainsMetavariable = None, c_argumentComplexity = None \<rparr> \<and>
   snd (complexity structuralDeBruijn
         \<lparr> c_pattern = Symbol ''3'' False None, c_expression = Symbol ''3'' False None,
           c_complexity = None, c_argumentCopyCount = None,
           c_argumentContainsMetavariable = None, c_argumentComplexity = None \<rparr>) = 1 \<and>
   Constraint_new (Application [Symbol ''A'' True None, Symbol ''B'' True None])
       (Application [Symbol ''x'' False None, Symbol ''y'' False None]) =
     Inr \<lparr> c_pattern = Application [Symbol ''A'' True None, Symbol ''B'' True None],
           c_expression = Application [Symbol ''x'' False None, Symbol ''y'' False None],
           c_complexity = None, c_argumentCopyCount = None,
           c_argumentContainsMetavariable = None, c_argumentComplexity = None \<rparr> \<and>
   snd (complexity structuralDeBruijn
         \<lparr> c_pattern = Application [Symbol ''A'' True None, Symbol ''B'' True None],
           c_expression = Application [Symbol ''x'' False None, Symbol ''y'' False None],
           c_complexity = None, c_argumentCopyCount = None,
           c_argumentContainsMetavariable = None, c_argumentComplexity = None \<rparr>) = 3"
proof -
  let ?c1 = "\<lparr> c_pattern = Symbol ''A'' True None, c_expression = Symbol ''x'' False None,
           c_complexity = None, c_argumentCopyCount = None,
           c_argumentContainsMetavariable = None, c_argumentComplexity = None \<rparr>"
  let ?p2 = "Application [Symbol ''LDE EFA'' False None, Symbol ''F'' True None,
                          Symbol ''y'' False None]"
  let ?c2 = "\<lparr> c_pattern = ?p2, c_expression = Symbol ''y'' False None,
           c_complexity = None, c_argumentCopyCount = None,
           c_argumentContainsMetavariable = None, c_argumentComplexity = None \<rparr>"
  let ?c3 = "\<lparr> c_pattern = Symbol ''3'' False None, c_expression = Symbol ''3'' False None,
           c_complexity = None, c_argumentCopyCount = None,
           c_argumentContainsMetavariable = None, c_argumentComplexity = None \<rparr>"
  let ?p4 = "Application [Symbol ''A'' True None, Symbol ''B'' True None]"
  let ?e4 = "Application [Symbol ''x'' False None, Symbol ''y'' False None]"
  let ?c4 = "\<lparr> c_pattern = ?p4, c_expression = ?e4,
           c_complexity = None, c_argumentCopyCount = None,
           c_argumentContainsMetavariable = None, c_argumentComplexity = None \<rparr>"
  have h1: "Constraint_new (Symbol ''A'' True None) (Symbol ''x'' False None) = Inr ?c1"
    by (simp add: Constraint_new_def containsAMetavariable_def hasDescendantSatisfying_def
        hasBoundMetavariable_def)
  have h2: "Constraint_new ?p2 (Symbol ''y'' False None) = Inr ?c2"
    by (simp add: Constraint_new_def containsAMetavariable_def hasDescendantSatisfying_def
        hasBoundMetavariable_def)
  have h3: "Constraint_new (Symbol ''3'' False None) (Symbol ''3'' False None) = Inr ?c3"
    by (simp add: Constraint_new_def containsAMetavariable_def hasDescendantSatisfying_def
        hasBoundMetavariable_def)
  have h4: "Constraint_new ?p4 ?e4 = Inr ?c4"
    by (simp add: Constraint_new_def containsAMetavariable_def hasDescendantSatisfying_def
        hasBoundMetavariable_def)
  have m4: "containsAMetavariable ?p4"
    by (simp add: containsAMetavariable_def hasDescendantSatisfying_def)
  have m3: "\<not> containsAMetavariable (Symbol ''3'' False None)"
    by (simp add: containsAMetavariable_def hasDescendantSatisfying_def)
  show ?thesis
    using h1 h2 h3 h4 m3 m4
      complexity_classification [OF h1, of structuralDeBruijn]
      complexity_classification [OF h2, of structuralDeBruijn]
      complexity_classification [OF h3, of structuralDeBruijn]
      complexity_classification [OF h4, of structuralDeBruijn]
    by (simp add: structuralDeBruijn_def equals_def numChildren_def)
qed

text \<open>C2. For every Constraint whose pattern is an EFA, complexity returns 4 plus the sum,
  over the arguments of the EFA (its children from the third on), of 2 for an argument
  that contains a metavariable and of the number of occurrences of the argument in the
  expression of the Constraint for an argument that contains none.\<close>

theorem complexity_of_EFA:
  assumes "isAnEFA p" "Constraint_new p e = Inr c"
  shows "snd (complexity db c) =
    4 + (\<Sum>a\<leftarrow>drop 2 (children p).
           if containsAMetavariable a then 2 else numberOfOccurrences db a e)"
  using complexity_EFA [OF assms, of db] by auto

theorem complexity_of_EFA_witness:
  "isAnEFA (Application [Symbol ''LDE EFA'' False None, Symbol ''F'' True None,
                         Symbol ''y'' False None, Symbol ''Y'' True None]) \<and>
   Constraint_new
       (Application [Symbol ''LDE EFA'' False None, Symbol ''F'' True None,
                     Symbol ''y'' False None, Symbol ''Y'' True None])
       (Application [Symbol ''g'' False None, Symbol ''y'' False None,
                     Symbol ''y'' False None, Symbol ''y'' False None]) =
     Inr \<lparr> c_pattern = Application [Symbol ''LDE EFA'' False None, Symbol ''F'' True None,
                                    Symbol ''y'' False None, Symbol ''Y'' True None],
           c_expression = Application [Symbol ''g'' False None, Symbol ''y'' False None,
                                       Symbol ''y'' False None, Symbol ''y'' False None],
           c_complexity = None, c_argumentCopyCount = None,
           c_argumentContainsMetavariable = None, c_argumentComplexity = None \<rparr> \<and>
   snd (complexity structuralDeBruijn
         \<lparr> c_pattern = Application [Symbol ''LDE EFA'' False None, Symbol ''F'' True None,
                                    Symbol ''y'' False None, Symbol ''Y'' True None],
           c_expression = Application [Symbol ''g'' False None, Symbol ''y'' False None,
                                       Symbol ''y'' False None, Symbol ''y'' False None],
           c_complexity = None, c_argumentCopyCount = None,
           c_argumentContainsMetavariable = None, c_argumentComplexity = None \<rparr>) = 9"
proof -
  let ?p = "Application [Symbol ''LDE EFA'' False None, Symbol ''F'' True None,
                         Symbol ''y'' False None, Symbol ''Y'' True None]"
  let ?e = "Application [Symbol ''g'' False None, Symbol ''y'' False None,
                         Symbol ''y'' False None, Symbol ''y'' False None]"
  let ?c = "\<lparr> c_pattern = ?p, c_expression = ?e,
           c_complexity = None, c_argumentCopyCount = None,
           c_argumentContainsMetavariable = None, c_argumentComplexity = None \<rparr>"
  have h1: "isAnEFA ?p" by simp
  have h2: "Constraint_new ?p ?e = Inr ?c"
    by (simp add: Constraint_new_def containsAMetavariable_def hasDescendantSatisfying_def
        hasBoundMetavariable_def)
  show ?thesis
    using h1 h2 complexity_of_EFA [OF h1 h2, of structuralDeBruijn]
    by (simp add: structuralDeBruijn_def equals_def containsAMetavariable_def
        hasDescendantSatisfying_def)
qed

text \<open>C5. For every Constraint whose pattern is an EFA, once complexity has been computed,
  canBeOnlyConstantEFA holds if and only if every argument of the EFA contains no
  metavariable and has no occurrence in the expression of the Constraint, and if and only
  if the complexity is 4.\<close>

theorem canBeOnlyConstantEFA_iff:
  assumes "isAnEFA p" "Constraint_new p e = Inr c"
  shows "(canBeOnlyConstantEFA (fst (complexity db c)) \<longleftrightarrow>
      (\<forall>a\<in>set (drop 2 (children p)).
          \<not> containsAMetavariable a \<and> numberOfOccurrences db a e = 0)) \<and>
     (canBeOnlyConstantEFA (fst (complexity db c)) \<longleftrightarrow> snd (complexity db c) = 4)"
proof -
  let ?k = "\<Sum>a\<leftarrow>drop 2 (children p).
           if containsAMetavariable a then 2 else numberOfOccurrences db a e"
  obtain c' where c': "complexity db c = (c', 4 + ?k)" "c_complexity c' = Some (4 + ?k)"
    using complexity_EFA [OF assms] by blast
  have "?k = 0 \<longleftrightarrow> (\<forall>a\<in>set (drop 2 (children p)).
          \<not> containsAMetavariable a \<and> numberOfOccurrences db a e = 0)"
    by (simp only: sum_list_map_zero) auto
  then show ?thesis
    using c' by (simp add: canBeOnlyConstantEFA_def)
qed

theorem canBeOnlyConstantEFA_iff_witness:
  "isAnEFA (Application [Symbol ''LDE EFA'' False None, Symbol ''F'' True None,
                         Symbol ''z'' False None]) \<and>
   Constraint_new
       (Application [Symbol ''LDE EFA'' False None, Symbol ''F'' True None,
                     Symbol ''z'' False None])
       (Symbol ''y'' False None) =
     Inr \<lparr> c_pattern = Application [Symbol ''LDE EFA'' False None, Symbol ''F'' True None,
                                    Symbol ''z'' False None],
           c_expression = Symbol ''y'' False None,
           c_complexity = None, c_argumentCopyCount = None,
           c_argumentContainsMetavariable = None, c_argumentComplexity = None \<rparr> \<and>
   canBeOnlyConstantEFA (fst (complexity structuralDeBruijn
         \<lparr> c_pattern = Application [Symbol ''LDE EFA'' False None, Symbol ''F'' True None,
                                    Symbol ''z'' False None],
           c_expression = Symbol ''y'' False None,
           c_complexity = None, c_argumentCopyCount = None,
           c_argumentContainsMetavariable = None, c_argumentComplexity = None \<rparr>)) \<and>
   snd (complexity structuralDeBruijn
         \<lparr> c_pattern = Application [Symbol ''LDE EFA'' False None, Symbol ''F'' True None,
                                    Symbol ''z'' False None],
           c_expression = Symbol ''y'' False None,
           c_complexity = None, c_argumentCopyCount = None,
           c_argumentContainsMetavariable = None, c_argumentComplexity = None \<rparr>) = 4"
proof -
  let ?p = "Application [Symbol ''LDE EFA'' False None, Symbol ''F'' True None,
                         Symbol ''z'' False None]"
  let ?e = "Symbol ''y'' False None"
  let ?c = "\<lparr> c_pattern = ?p, c_expression = ?e,
           c_complexity = None, c_argumentCopyCount = None,
           c_argumentContainsMetavariable = None, c_argumentComplexity = None \<rparr>"
  have h1: "isAnEFA ?p" by simp
  have h2: "Constraint_new ?p ?e = Inr ?c"
    by (simp add: Constraint_new_def containsAMetavariable_def hasDescendantSatisfying_def
        hasBoundMetavariable_def)
  have args: "\<forall>a\<in>set (drop 2 (children ?p)).
      \<not> containsAMetavariable a \<and> numberOfOccurrences structuralDeBruijn a ?e = 0"
    by (simp add: structuralDeBruijn_def equals_def containsAMetavariable_def
        hasDescendantSatisfying_def)
  have "canBeOnlyConstantEFA (fst (complexity structuralDeBruijn ?c)) \<and>
        snd (complexity structuralDeBruijn ?c) = 4"
    using args canBeOnlyConstantEFA_iff [OF h1 h2, of structuralDeBruijn] by blast
  then show ?thesis
    using h1 h2 by simp
qed

end
